theory Spec2Isabelle
  imports Complex_Main "HOL-Library.Product_Lexorder"
begin

section \<open>Calendar dates\<close>

text \<open>
  The time column of the data frame holds pandas timestamps at daily resolution.  A
  timestamp is modelled by its Gregorian year, month and day, which is all the
  accessors \<^verbatim>\<open>.dt.year\<close>, \<^verbatim>\<open>.dt.month\<close>, \<^verbatim>\<open>.dt.day\<close>, \<^verbatim>\<open>.dt.dayofyear\<close> and
  \<^verbatim>\<open>.dt.is_leap_year\<close> of the source read.
\<close>

datatype date = Date (dt_year: int) (dt_month: int) (dt_day: int)

definition is_leap_year :: "int \<Rightarrow> bool" where
  "is_leap_year y \<longleftrightarrow> y mod 4 = 0 \<and> (y mod 100 \<noteq> 0 \<or> y mod 400 = 0)"

definition days_in_month :: "int \<Rightarrow> int \<Rightarrow> int" where
  "days_in_month y m =
     (if m = 2 then (if is_leap_year y then 29 else 28)
      else if m = 4 \<or> m = 6 \<or> m = 9 \<or> m = 11 then 30 else 31)"

definition valid_date :: "date \<Rightarrow> bool" where
  "valid_date d \<longleftrightarrow>
     1 \<le> dt_month d \<and> dt_month d \<le> 12 \<and>
     1 \<le> dt_day d \<and> dt_day d \<le> days_in_month (dt_year d) (dt_month d)"

definition days_before_month :: "int \<Rightarrow> int \<Rightarrow> int" where
  "days_before_month y m = sum_list (map (days_in_month y) [1..m - 1])"

definition dayofyear :: "date \<Rightarrow> int" where
  "dayofyear d = days_before_month (dt_year d) (dt_month d) + dt_day d"

text \<open>Timestamps compare chronologically, which on dates is the lexicographic order.\<close>

definition date_key :: "date \<Rightarrow> int \<times> int \<times> int" where
  "date_key d = (dt_year d, dt_month d, dt_day d)"

definition date_le :: "date \<Rightarrow> date \<Rightarrow> bool" where
  "date_le a b \<longleftrightarrow> date_key a \<le> date_key b"

text \<open>
  \<^verbatim>\<open>pd.date_range(start=f"{y1}-01-01", end=f"{y2}-12-31", freq='D')\<close>: every day of the
  years \<open>y1\<close> to \<open>y2\<close>, in order.
\<close>

definition days_of_month :: "int \<Rightarrow> int \<Rightarrow> date list" where
  "days_of_month y m = map (Date y m) [1..days_in_month y m]"

definition days_of_year :: "int \<Rightarrow> date list" where
  "days_of_year y = concat (map (days_of_month y) [1..12])"

definition date_range :: "int \<Rightarrow> int \<Rightarrow> date list" where
  "date_range y1 y2 = concat (map days_of_year [y1..y2])"

section \<open>Data frames\<close>

text \<open>
  A row of the caller's frame: the time column and the variable column.  A missing
  value (NaN) is \<open>None\<close>; values are exact rationals, so floating-point rounding is
  outside the model.
\<close>

record point =
  time :: date
  val :: "rat option"

text \<open>The analysis frame \<^verbatim>\<open>df_analysis\<close> adds the four calendar columns.\<close>

record nrow = point +
  year :: int
  doy :: int
  week_num :: int
  month_num :: int

datatype error = TimestampError | IndexError | UnboundLocalError | ValueError

text \<open>
  \<^verbatim>\<open>groupby\<close> with the default \<^verbatim>\<open>sort=True\<close>: the groups come in ascending key order
  and every group keeps its rows in frame order.
\<close>

definition groupby :: "('a \<Rightarrow> 'k::linorder) \<Rightarrow> 'a list \<Rightarrow> ('k \<times> 'a list) list" where
  "groupby key df = map (\<lambda>k. (k, filter (\<lambda>r. key r = k) df)) (sort (remdups (map key df)))"

text \<open>\<^verbatim>\<open>unique\<close>: the distinct values of a column in order of first appearance.\<close>

fun unique :: "'a list \<Rightarrow> 'a list" where
  "unique [] = []"
| "unique (x # xs) = x # removeAll x (unique xs)"

text \<open>\<^verbatim>\<open>mean\<close> skips missing values and is missing when nothing is left.\<close>

definition non_null :: "rat option list \<Rightarrow> rat list" where
  "non_null vs = concat (map (\<lambda>v. case v of None \<Rightarrow> [] | Some x \<Rightarrow> [x]) vs)"

definition mean :: "rat option list \<Rightarrow> rat option" where
  "mean vs = (let xs = non_null vs in
     if xs = [] then None else Some (sum_list xs / of_nat (length xs)))"


section \<open>Year filter (lines 210-213)\<close>

definition year_filter :: "int option \<Rightarrow> int option \<Rightarrow> point list \<Rightarrow> point list" where
  "year_filter year_min year_max df =
     (let df1 = (case year_min of None \<Rightarrow> df
                 | Some lo \<Rightarrow> filter (\<lambda>r. dt_year (time r) \<ge> lo) df)
      in (case year_max of None \<Rightarrow> df1
          | Some hi \<Rightarrow> filter (\<lambda>r. dt_year (time r) \<le> hi) df1))"

section \<open>Gap filler (lines 220-246)\<close>

fun min_date :: "date \<Rightarrow> date list \<Rightarrow> date" where
  "min_date m [] = m"
| "min_date m (d # ds) = min_date (if date_le m d then m else d) ds"

fun max_date :: "date \<Rightarrow> date list \<Rightarrow> date" where
  "max_date m [] = m"
| "max_date m (d # ds) = max_date (if date_le d m then m else d) ds"

text \<open>
  \<^verbatim>\<open>start_dates\<close> and \<^verbatim>\<open>end_dates\<close>: per calendar year, the first and last observed
  timestamp.  A year is complete when the first is January 1 and the last December 31.
\<close>

definition start_end_dates :: "point list \<Rightarrow> (int \<times> date \<times> date) list" where
  "start_end_dates df =
     map (\<lambda>(y, g). (y, min_date (time (hd g)) (map time g), max_date (time (hd g)) (map time g)))
         (groupby (\<lambda>r. dt_year (time r)) df)"

definition complete_years :: "point list \<Rightarrow> int list" where
  "complete_years df =
     map fst (filter (\<lambda>(y, s, e). dt_month s = 1 \<and> dt_day s = 1 \<and> dt_month e = 12 \<and> dt_day e = 31)
                     (start_end_dates df))"

text \<open>
  \<^verbatim>\<open>df_complete.join(df)\<close> is a left join on the daily index: a day of the index with
  no observation gets one row with a missing value, a day with observations gets all of
  them, and observations outside the index are not in the result.
\<close>

definition left_join :: "date list \<Rightarrow> point list \<Rightarrow> point list" where
  "left_join idx df =
     concat (map (\<lambda>d. case filter (\<lambda>r. time r = d) df of
                         [] \<Rightarrow> [\<lparr>time = d, val = None\<rparr>]
                       | ms \<Rightarrow> ms) idx)"

text \<open>
  \<^verbatim>\<open>interpolate(method='linear')\<close> with the pandas defaults: rows are equally spaced,
  a missing value between two values gets the point on the line between them, missing
  values after the last value repeat it, and missing values before the first value stay
  missing.  \<open>next_valid\<close> finds the next value and the number of missing rows before it.
\<close>

fun next_valid :: "rat option list \<Rightarrow> (nat \<times> rat) option" where
  "next_valid [] = None"
| "next_valid (Some q # xs) = Some (0, q)"
| "next_valid (None # xs) = map_option (\<lambda>(n, q). (Suc n, q)) (next_valid xs)"

fun interpolate_from :: "(nat \<times> rat) option \<Rightarrow> rat option list \<Rightarrow> rat option list" where
  "interpolate_from st [] = []"
| "interpolate_from st (Some v # xs) = Some v # interpolate_from (Some (0, v)) xs"
| "interpolate_from None (None # xs) = None # interpolate_from None xs"
| "interpolate_from (Some (j, p)) (None # xs) =
     (case next_valid xs of
        None \<Rightarrow> Some p
      | Some (n, q) \<Rightarrow> Some (p + (q - p) * of_nat (j + 1) / of_nat (j + n + 2)))
     # interpolate_from (Some (j + 1, p)) xs"

definition interpolate :: "point list \<Rightarrow> point list" where
  "interpolate df =
     map (\<lambda>(r, v). r\<lparr>val := v\<rparr>) (zip df (interpolate_from None (map val df)))"

text \<open>The daily index: January 1 of the earliest complete year to December 31 of the
  latest one.\<close>

definition complete_range :: "point list \<Rightarrow> date list" where
  "complete_range df =
     date_range (Min (set (complete_years df))) (Max (set (complete_years df)))"

definition gap_fill :: "point list \<Rightarrow> point list" where
  "gap_fill df =
     (if length (complete_years df) > 0
      then interpolate (left_join (complete_range df) df)
      else df)"

section \<open>Calendar normalizer (lines 248-295)\<close>

definition week_of :: "int \<Rightarrow> int" where
  "week_of d = (let w = (d - 1) div 7 + 1 in if w > 52 then 52 else w)"

definition adjusted_doy :: "date \<Rightarrow> int" where
  "adjusted_doy t =
     (if is_leap_year (dt_year t) \<and> dayofyear t > 59 then dayofyear t - 1 else dayofyear t)"

definition calendar_columns :: "point list \<Rightarrow> nrow list" where
  "calendar_columns df =
     map (\<lambda>r. \<lparr>time = time r, val = val r, year = dt_year (time r),
               doy = adjusted_doy (time r), week_num = week_of (adjusted_doy (time r)),
               month_num = dt_month (time r)\<rparr>)
         (filter (\<lambda>r. \<not> (dt_month (time r) = 2 \<and> dt_day (time r) = 29)) df)"

definition days_per_month :: "int \<Rightarrow> int" where
  "days_per_month m =
     (if m = 2 then 28 else if m = 4 \<or> m = 6 \<or> m = 9 \<or> m = 11 then 30 else 31)"

definition fiscal_year :: "int \<Rightarrow> nrow \<Rightarrow> int" where
  "fiscal_year sm r =
     (if sm \<le> 6
      then (if dt_month (time r) < sm then year r - 1 else year r)
      else (if dt_month (time r) \<ge> sm then year r + 1 else year r))"

text \<open>\<^verbatim>\<open>groupby('year').cumcount() + 1\<close>: the rank of a row among the rows of its year.\<close>

fun cumcount :: "int list \<Rightarrow> nrow list \<Rightarrow> nrow list" where
  "cumcount seen [] = []"
| "cumcount seen (r # rs) =
     r\<lparr>doy := int (length (filter (\<lambda>y. y = year r) seen)) + 1\<rparr> # cumcount (year r # seen) rs"

text \<open>The window of whole fiscal years: from the first of the start month in the
  earliest year to the last day of the month before it in the latest year.\<close>

definition window_start :: "int \<Rightarrow> nrow list \<Rightarrow> date" where
  "window_start sm dfa = Date (Min (set (map (\<lambda>r. dt_year (time r)) dfa))) sm 1"

definition window_end :: "int \<Rightarrow> nrow list \<Rightarrow> date" where
  "window_end sm dfa =
     Date (Max (set (map (\<lambda>r. dt_year (time r)) dfa))) (sm - 1) (days_per_month (sm - 1))"

definition in_window :: "int \<Rightarrow> nrow list \<Rightarrow> nrow \<Rightarrow> bool" where
  "in_window sm dfa r \<longleftrightarrow>
     date_le (window_start sm dfa) (time r) \<and> date_le (time r) (window_end sm dfa)"

text \<open>
  \<^verbatim>\<open>pd.Timestamp\<close> rejects the year of an empty frame (the minimum of no years is
  NaN) and a month above 12.
\<close>

definition fiscal_shift :: "int \<Rightarrow> nrow list \<Rightarrow> error + nrow list" where
  "fiscal_shift sm dfa =
     (if dfa = [] \<or> sm > 12 then Inl TimestampError
      else
        let w0 = filter (in_window sm dfa) dfa;
            w1 = map (\<lambda>r. r\<lparr>month_num := (dt_month (time r) - sm) mod 12 + 1\<rparr>) w0;
            w2 = map (\<lambda>r. r\<lparr>year := fiscal_year sm r\<rparr>) w1;
            w3 = sort_key (\<lambda>r. (month_num r, doy r)) w2;
            w4 = cumcount [] w3;
            w5 = map (\<lambda>r. r\<lparr>week_num := week_of (doy r)\<rparr>) w4
        in Inr (sort_key (\<lambda>r. (year r, doy r)) w5))"

text \<open>
  The constructor keeps \<^verbatim>\<open>start_month\<close> only when it is greater than 1 (line 132), so
  \<open>None\<close> stands for the calendar year.
\<close>

definition normalize :: "int option \<Rightarrow> point list \<Rightarrow> error + nrow list" where
  "normalize start_month df =
     (case start_month of
        None \<Rightarrow> Inr (calendar_columns df)
      | Some sm \<Rightarrow> fiscal_shift sm (calendar_columns df))"

section \<open>Resampler (lines 297-320)\<close>

datatype freq = D | W | ME

text \<open>
  \<^verbatim>\<open>freq\<close> is \<open>None\<close> for the daily default.  The aggregation \<^verbatim>\<open>'first'\<close> takes the first
  row of a group in frame order; a group of \<open>groupby\<close> is never empty.
\<close>

definition resample :: "freq option \<Rightarrow> nrow list \<Rightarrow> nrow list" where
  "resample f df_analysis =
     (case f of
        Some W \<Rightarrow>
          map (\<lambda>((y, w), g). \<lparr>time = time (hd g), val = mean (map val g), year = y,
                               doy = doy (hd g), week_num = w, month_num = month_num (hd g)\<rparr>)
              (groupby (\<lambda>r. (year r, week_num r)) df_analysis)
      | Some ME \<Rightarrow>
          map (\<lambda>((y, m), g). \<lparr>time = time (hd g), val = mean (map val g), year = y,
                               doy = doy (hd g), week_num = week_num (hd g), month_num = m\<rparr>)
              (groupby (\<lambda>r. (year r, month_num r)) df_analysis)
      | _ \<Rightarrow> df_analysis)"

text \<open>
  The column \<^verbatim>\<open>month_real\<close> of line 323 repeats the month of the time column for the
  axis ticks and is left out.
\<close>

text \<open>The bucket column of a frequency (\<^verbatim>\<open>sort_col\<close>, \<^verbatim>\<open>x_col\<close> in the source).\<close>

definition x_col :: "freq option \<Rightarrow> nrow \<Rightarrow> int" where
  "x_col f = (case f of Some W \<Rightarrow> week_num | Some ME \<Rightarrow> month_num | _ \<Rightarrow> doy)"

section \<open>Cumulative transform (lines 326-337)\<close>

text \<open>\<^verbatim>\<open>cumsum\<close> leaves a missing value missing and does not add it to the running sum.\<close>

fun cumsum :: "rat \<Rightarrow> rat option list \<Rightarrow> rat option list" where
  "cumsum acc [] = []"
| "cumsum acc (None # vs) = None # cumsum acc vs"
| "cumsum acc (Some v # vs) = Some (acc + v) # cumsum (acc + v) vs"

text \<open>
  The rows of one year, ordered by bucket, receive the running sum; the assignment
  through \<^verbatim>\<open>df.loc[year_mask, var_col]\<close> aligns on the row index, so each row gets the
  sum at its own place in that order.  Rows of equal bucket keep their frame order here;
  pandas leaves their order open.
\<close>

definition cumul_year :: "(nrow \<Rightarrow> int) \<Rightarrow> int \<Rightarrow> nrow list \<Rightarrow> nrow list" where
  "cumul_year sort_col y df =
     (let idx = filter (\<lambda>i. year (df ! i) = y) [0..<length df];
          order = sort_key (\<lambda>i. sort_col (df ! i)) idx;
          csum = cumsum 0 (map (\<lambda>i. val (df ! i)) order)
      in fold (\<lambda>(i, c) d. d[i := (d ! i)\<lparr>val := c\<rparr>]) (zip order csum) df)"

definition cumulative :: "freq option \<Rightarrow> nrow list \<Rightarrow> nrow list" where
  "cumulative f df = fold (cumul_year (x_col f)) (unique (map year df)) df"

section \<open>Rolling multi-year averager (lines 339-388)\<close>

text \<open>A row of a window frame: the window's start year, the bucket, the first
  timestamp of the bucket and the mean value.\<close>

record wrow =
  w_year :: int
  w_bucket :: int
  w_time :: date
  w_val :: "rat option"

text \<open>Python list indexing: a negative index counts from the end, an index outside
  the list raises.\<close>

definition py_index :: "'a list \<Rightarrow> int \<Rightarrow> error + 'a" where
  "py_index xs i =
     (if 0 \<le> i \<and> i < int (length xs) then Inr (xs ! nat i)
      else if i < 0 \<and> - i \<le> int (length xs) then Inr (xs ! nat (int (length xs) + i))
      else Inl IndexError)"

definition window_avg :: "(nrow \<Rightarrow> int) \<Rightarrow> int \<Rightarrow> nrow list \<Rightarrow> wrow list" where
  "window_avg key start_year block_df =
     map (\<lambda>(b, g). \<lparr>w_year = start_year, w_bucket = b, w_time = time (hd g),
                     w_val = mean (map val g)\<rparr>)
         (groupby key block_df)"

text \<open>One pass of the loop body.  No branch assigns \<^verbatim>\<open>result_df\<close> when \<^verbatim>\<open>freq\<close> is
  not one of the three codes, and the append that follows raises.\<close>

definition window_block :: "int \<Rightarrow> freq option \<Rightarrow> nrow list \<Rightarrow> int \<Rightarrow> error + wrow list" where
  "window_block rolling_window f df start_year =
     (let block_df = filter (\<lambda>r. year r \<ge> start_year \<and> year r < start_year + rolling_window) df
      in case f of
           Some D \<Rightarrow> Inr (window_avg doy start_year block_df)
         | Some W \<Rightarrow> Inr (window_avg week_num start_year block_df)
         | Some ME \<Rightarrow> Inr (window_avg month_num start_year block_df)
         | None \<Rightarrow> Inl UnboundLocalError)"

fun roll_loop :: "int \<Rightarrow> freq option \<Rightarrow> nrow list \<Rightarrow> int \<Rightarrow> int list \<Rightarrow> error + wrow list list" where
  "roll_loop rolling_window f df max_start_year [] = Inr []"
| "roll_loop rolling_window f df max_start_year (start_year # ys) =
     (if start_year > max_start_year then Inr []
      else case window_block rolling_window f df start_year of
             Inl e \<Rightarrow> Inl e
           | Inr result_df \<Rightarrow>
               (case roll_loop rolling_window f df max_start_year ys of
                  Inl e \<Rightarrow> Inl e
                | Inr output_dfs \<Rightarrow> Inr (result_df # output_dfs)))"

text \<open>\<^verbatim>\<open>pd.concat\<close> raises on an empty list of frames.\<close>

definition rolling :: "int \<Rightarrow> freq option \<Rightarrow> nrow list \<Rightarrow> error + wrow list" where
  "rolling rolling_window f df =
     (let unique_years = sort (unique (map year df))
      in case py_index unique_years (- rolling_window) of
           Inl e \<Rightarrow> Inl e
         | Inr max_start_year \<Rightarrow>
             (case roll_loop rolling_window f df max_start_year unique_years of
                Inl e \<Rightarrow> Inl e
              | Inr output_dfs \<Rightarrow>
                  if output_dfs = [] then Inl ValueError else Inr (concat output_dfs)))"

text \<open>The frame that reaches the mode projector: the resampled rows, or the window
  rows when a rolling window is in effect.\<close>

datatype frame = Rows "nrow list" | Windows "wrow list"

definition rolling_stage :: "int option \<Rightarrow> freq option \<Rightarrow> nrow list \<Rightarrow> error + frame" where
  "rolling_stage rolling_window f df =
     (case rolling_window of
        None \<Rightarrow> Inr (Rows df)
      | Some w \<Rightarrow> (case rolling w f df of Inl e \<Rightarrow> Inl e | Inr out \<Rightarrow> Inr (Windows out)))"

section \<open>Mode projector (lines 390-498)\<close>

datatype mode = Historical | AnnualCycle | Statistics

text \<open>A row of an annual-cycle table: year (or window start), bucket, mean value.\<close>

record crow =
  c_year :: int
  c_x :: int
  c_val :: "rat option"

text \<open>
  The empirical quantile of a group, as pandas computes it with linear interpolation:
  missing values are left out, the rest is sorted, and the value at the fractional
  position \<open>q * (n - 1)\<close> lies on the line between the two neighbouring order statistics.
\<close>

definition qpos :: "rat list \<Rightarrow> rat \<Rightarrow> rat" where
  "qpos xs h =
     (if h - of_int \<lfloor>h\<rfloor> = 0 then xs ! nat \<lfloor>h\<rfloor>
      else xs ! nat \<lfloor>h\<rfloor> + (xs ! (nat \<lfloor>h\<rfloor> + 1) - xs ! nat \<lfloor>h\<rfloor>) * (h - of_int \<lfloor>h\<rfloor>))"

definition quantile :: "rat \<Rightarrow> rat option list \<Rightarrow> rat option" where
  "quantile q vs =
     (let xs = sort (non_null vs); n = length xs
      in if n = 0 then None else Some (qpos xs (q * of_nat (n - 1))))"

definition median :: "rat option list \<Rightarrow> rat option" where
  "median vs =
     (let xs = sort (non_null vs); n = length xs
      in if n = 0 then None
         else if odd n then Some (xs ! (n div 2))
         else Some ((xs ! (n div 2 - 1) + xs ! (n div 2)) / 2))"

record srow =
  x_value :: int
  smin :: "rat option"
  q01 :: "rat option"
  q05 :: "rat option"
  q10 :: "rat option"
  q25 :: "rat option"
  q75 :: "rat option"
  q90 :: "rat option"
  q95 :: "rat option"
  q99 :: "rat option"
  smax :: "rat option"
  smean :: "rat option"
  smedian :: "rat option"
  stime :: date
  focus :: "rat option"

datatype table = Chrono frame | Cycle "crow list" | Stats "srow list"

record series =
  s_df :: table
  time_col :: string
  var_col :: string
  legend_name :: string
  s_freq :: "freq option"
  s_rolling_window :: "int option"
  is_annual_cycle :: bool
  is_statistics :: bool

text \<open>\<^verbatim>\<open>str(year)\<close> of an integer, for the legend texts.\<close>

fun digits :: "nat \<Rightarrow> string" where
  "digits n = (if n < 10 then [''0123456789'' ! n]
               else digits (n div 10) @ [''0123456789'' ! (n mod 10)])"

definition str_int :: "int \<Rightarrow> string" where
  "str_int i = (if i < 0 then CHR ''-'' # digits (nat (- i)) else digits (nat i))"

text \<open>\<^verbatim>\<open>legend_name or str(var_col)\<close>: an absent or empty legend falls back to the column.\<close>

definition legend_or :: "string option \<Rightarrow> string \<Rightarrow> string" where
  "legend_or legend v = (case legend of None \<Rightarrow> v | Some l \<Rightarrow> if l = [] then v else l)"

definition x_col_name :: "freq option \<Rightarrow> string" where
  "x_col_name f = (case f of Some W \<Rightarrow> ''week_num'' | Some ME \<Rightarrow> ''month_num'' | _ \<Rightarrow> ''doy'')"

definition historical_series ::
  "string option \<Rightarrow> string \<Rightarrow> freq option \<Rightarrow> int option \<Rightarrow> frame \<Rightarrow> series list" where
  "historical_series legend v f rw fr =
     [\<lparr>s_df = Chrono fr, time_col = ''time'', var_col = v, legend_name = legend_or legend v,
       s_freq = f, s_rolling_window = rw, is_annual_cycle = False, is_statistics = False\<rparr>]"

definition cycle_grouped :: "freq option \<Rightarrow> frame \<Rightarrow> crow list" where
  "cycle_grouped f fr =
     (case fr of
        Rows df \<Rightarrow>
          map (\<lambda>((y, x), g). \<lparr>c_year = y, c_x = x, c_val = mean (map val g)\<rparr>)
              (groupby (\<lambda>r. (year r, x_col f r)) df)
      | Windows df \<Rightarrow>
          map (\<lambda>((y, x), g). \<lparr>c_year = y, c_x = x, c_val = mean (map w_val g)\<rparr>)
              (groupby (\<lambda>r. (w_year r, w_bucket r)) df))"

definition legend_text :: "int option \<Rightarrow> int \<Rightarrow> string" where
  "legend_text rw y =
     (case rw of
        Some w \<Rightarrow> str_int y @ ''-'' @ str_int (y + w - 1)
      | None \<Rightarrow> ''Year '' @ str_int y)"

definition annual_cycle_series ::
  "string \<Rightarrow> freq option \<Rightarrow> int option \<Rightarrow> frame \<Rightarrow> series list" where
  "annual_cycle_series v f rw fr =
     (let grouped = cycle_grouped f fr
      in map (\<lambda>y. \<lparr>s_df = Cycle (filter (\<lambda>r. c_year r = y) grouped), time_col = x_col_name f,
                    var_col = v, legend_name = legend_text rw y, s_freq = f,
                    s_rolling_window = rw, is_annual_cycle = True, is_statistics = False\<rparr>)
             (unique (map c_year grouped)))"

text \<open>
  The statistics table has one row per bucket of the years other than the focus year;
  the focus year's bucket means are joined on from the left, so a bucket the focus year
  lacks has a missing \<open>focus\<close>.  When no row lies outside the focus year the table
  has no rows.
\<close>

definition statistics_table :: "freq option \<Rightarrow> int option \<Rightarrow> nrow list \<Rightarrow> srow list" where
  "statistics_table f fy df =
     (let df_stats_part = filter (\<lambda>r. Some (year r) \<noteq> fy) df;
          df_focus_part = filter (\<lambda>r. Some (year r) = fy) df;
          df_focus_grouped = map (\<lambda>(x, g). (x, mean (map val g))) (groupby (x_col f) df_focus_part)
      in map (\<lambda>(x, g).
                let vs = map val g
                in \<lparr>x_value = x, smin = quantile 0 vs, q01 = quantile (1 / 100) vs,
                    q05 = quantile (5 / 100) vs, q10 = quantile (10 / 100) vs,
                    q25 = quantile (25 / 100) vs, q75 = quantile (75 / 100) vs,
                    q90 = quantile (90 / 100) vs, q95 = quantile (95 / 100) vs,
                    q99 = quantile (99 / 100) vs, smax = quantile 1 vs,
                    smean = mean vs, smedian = median vs, stime = time (hd g),
                    focus = (case map_of df_focus_grouped x of None \<Rightarrow> None | Some v \<Rightarrow> v)\<rparr>)
             (groupby (x_col f) df_stats_part))"

text \<open>In statistics mode the rolling window has been reset, so the frame is never a
  window frame there.\<close>

definition statistics_series ::
  "string option \<Rightarrow> string \<Rightarrow> freq option \<Rightarrow> int option \<Rightarrow> frame \<Rightarrow> series list" where
  "statistics_series legend v f fy fr =
     (case fr of
        Rows df \<Rightarrow>
          [\<lparr>s_df = Stats (statistics_table f fy df), time_col = ''x_value'', var_col = v,
            legend_name = legend_or legend v, s_freq = f, s_rolling_window = None,
            is_annual_cycle = False, is_statistics = True\<rparr>]
      | Windows df \<Rightarrow> [])"

section \<open>The engine\<close>

text \<open>
  The fields of \<^verbatim>\<open>TimeSeriesPlot_Plotly\<close> that the processing reads or writes.  Calls of
  \<^verbatim>\<open>logging.warning\<close> are recorded in \<open>warnings\<close>.  Titles, axes, lines and rectangles
  belong to the rendering and are left out.
\<close>

record engine =
  mode :: mode
  focus_year :: "int option"
  start_month :: "int option"
  cumul :: bool
  e_freq :: "freq option"
  e_legend_name :: "string option"
  e_rolling_window :: "int option"
  series_list :: "series list"
  warnings :: "string list"

definition warn_cumul :: string where
  "warn_cumul = ''Cumulative option is not applicable in historical mode. It will be ignored.''"

definition warn_statistics :: string where
  "warn_statistics = ''The statistics mode requires a reference year (focus_year). The historical mode will be used instead.''"

definition warn_rolling :: string where
  "warn_rolling = ''The statistics mode cannot be used with a rolling_window. The rolling_window will be ignored.''"

definition init :: "mode \<Rightarrow> int option \<Rightarrow> int option \<Rightarrow> bool \<Rightarrow> engine" where
  "init m fy sm cu =
     (let self0 = \<lparr>mode = m, focus_year = fy,
                   start_month = (case sm of None \<Rightarrow> None | Some s \<Rightarrow> if s > 1 then Some s else None),
                   cumul = cu, e_freq = None, e_legend_name = None, e_rolling_window = None,
                   series_list = [], warnings = []\<rparr>;
          self1 = (if cumul self0 \<and> mode self0 = Historical
                   then self0\<lparr>cumul := False, warnings := warnings self0 @ [warn_cumul]\<rparr>
                   else self0);
          self2 = (if mode self1 = Statistics \<and> focus_year self1 = None
                   then self1\<lparr>mode := Historical, warnings := warnings self1 @ [warn_statistics]\<rparr>
                   else self1)
      in self2)"

section \<open>add_series (lines 149-502)\<close>

text \<open>
  Data frames are objects on a heap and the caller passes a reference.  \<^verbatim>\<open>df.copy()\<close>
  allocates a new object; the column assignment \<^verbatim>\<open>df[time_col] = pd.to_datetime(...)\<close>
  writes to the object the local name is bound to.  All later steps bind the local names
  to frames derived from that copy.
\<close>

type_synonym heap = "point list list"

definition df_copy :: "heap \<Rightarrow> nat \<Rightarrow> nat \<times> heap" where
  "df_copy h r = (length h, h @ [h ! r])"

text \<open>The time column already holds dates in the model, so the conversion keeps them.\<close>

definition to_datetime :: "point list \<Rightarrow> point list" where
  "to_datetime df = map (\<lambda>r. r\<lparr>time := time r\<rparr>) df"

definition project ::
  "engine \<Rightarrow> string option \<Rightarrow> string \<Rightarrow> freq option \<Rightarrow> frame \<Rightarrow> series list" where
  "project self legend v f fr =
     (case mode self of
        Historical \<Rightarrow> historical_series legend v f (e_rolling_window self) fr
      | AnnualCycle \<Rightarrow> annual_cycle_series v f (e_rolling_window self) fr
      | Statistics \<Rightarrow> statistics_series legend v f (focus_year self) fr)"

text \<open>The frame that reaches the rolling averager (lines 210-337), from the copy.\<close>

definition prepare ::
  "engine \<Rightarrow> point list \<Rightarrow> int option \<Rightarrow> int option \<Rightarrow> freq option \<Rightarrow> error + nrow list" where
  "prepare self df0 year_min year_max f =
     (case normalize (start_month self) (gap_fill (year_filter year_min year_max df0)) of
        Inl e \<Rightarrow> Inl e
      | Inr df_analysis \<Rightarrow>
          Inr (let df1 = resample f df_analysis
               in if cumul self \<and> (mode self = AnnualCycle \<or> mode self = Statistics)
                  then cumulative f df1 else df1))"

definition process ::
  "engine \<Rightarrow> point list \<Rightarrow> string \<Rightarrow> string option \<Rightarrow> int option \<Rightarrow> int option \<Rightarrow>
     freq option \<Rightarrow> error + series list" where
  "process self df0 v legend year_min year_max f =
     (case prepare self df0 year_min year_max f of
        Inl e \<Rightarrow> Inl e
      | Inr df \<Rightarrow>
          (case rolling_stage (e_rolling_window self) f df of
             Inl e \<Rightarrow> Inl e
           | Inr fr \<Rightarrow> Inr (project self legend v f fr)))"

definition add_series ::
  "engine \<Rightarrow> heap \<Rightarrow> nat \<Rightarrow> string \<Rightarrow> string option \<Rightarrow> int option \<Rightarrow> int option \<Rightarrow>
     freq option \<Rightarrow> int option \<Rightarrow> error + engine \<times> heap" where
  "add_series self h df_ref v legend year_min year_max f rolling_window =
     (let self1 = self\<lparr>e_freq := f, e_legend_name := legend, e_rolling_window := rolling_window\<rparr>;
          (a, h1) = df_copy h df_ref;
          h2 = h1[a := to_datetime (h1 ! a)];
          self2 = (if mode self1 = Statistics \<and> e_rolling_window self1 \<noteq> None
                   then self1\<lparr>e_rolling_window := None, warnings := warnings self1 @ [warn_rolling]\<rparr>
                   else self1)
      in case process self2 (h2 ! a) v legend year_min year_max f of
           Inl e \<Rightarrow> Inl e
         | Inr new_series \<Rightarrow> Inr (self2\<lparr>series_list := series_list self2 @ new_series\<rparr>, h2))"

section \<open>Fiscal-year assignment\<close>

lemma cumcount_time_year:
  "map (\<lambda>r. (time r, year r)) (cumcount seen rs) = map (\<lambda>r. (time r, year r)) rs"
  by (induction rs arbitrary: seen) auto

lemma calendar_columns_year:
  "r \<in> set (calendar_columns df) \<Longrightarrow> year r = dt_year (time r)"
  by (auto simp: calendar_columns_def)

lemma fiscal_shift_rows:
  assumes "fiscal_shift sm dfa = Inr out" and "r \<in> set out"
  shows "\<exists>r0 \<in> set dfa. time r = time r0 \<and> year r = fiscal_year sm r0"
proof -
  define w2 where "w2 = map (\<lambda>r. r\<lparr>year := fiscal_year sm r\<rparr>)
       (map (\<lambda>r. r\<lparr>month_num := (dt_month (time r) - sm) mod 12 + 1\<rparr>)
         (filter (in_window sm dfa) dfa))"
  define w4 where "w4 = cumcount [] (sort_key (\<lambda>r. (month_num r, doy r)) w2)"
  from assms(1) have out:
    "out = sort_key (\<lambda>r. (year r, doy r)) (map (\<lambda>r. r\<lparr>week_num := week_of (doy r)\<rparr>) w4)"
    by (auto simp: fiscal_shift_def Let_def w2_def w4_def split: if_splits)
  with assms(2) obtain r4 where r4: "r4 \<in> set w4" "time r = time r4" "year r = year r4"
    by auto
  then have "(time r, year r) \<in> set (map (\<lambda>r. (time r, year r)) w4)"
    by force
  then have "(time r, year r)
      \<in> set (map (\<lambda>r. (time r, year r)) (sort_key (\<lambda>r. (month_num r, doy r)) w2))"
    unfolding w4_def cumcount_time_year .
  then obtain r2 where r2: "r2 \<in> set w2" "time r = time r2" "year r = year r2"
    by auto
  then show ?thesis
    unfolding w2_def by (auto simp: fiscal_year_def)
qed

text \<open>
  Claim C3.  With start month 10 the normalizer gives fiscal year 2017 to 2017-01-15 and
  to 2016-10-05.  In general, every row the normalizer emits under a custom start month
  \<open>sm\<close> carries its calendar year minus 1 when \<open>sm \<le> 6\<close> and its month is before \<open>sm\<close>,
  its calendar year plus 1 when \<open>sm > 6\<close> and its month is \<open>sm\<close> or later, and its
  calendar year otherwise.
\<close>

theorem fiscal_shift_correct:
  "(\<exists>out. normalize (Some 10) [\<lparr>time = Date 2017 1 15, val = v1\<rparr>,
                                 \<lparr>time = Date 2016 10 5, val = v2\<rparr>] = Inr out
      \<and> map (\<lambda>r. (time r, year r)) out = [(Date 2016 10 5, 2017), (Date 2017 1 15, 2017)])
   \<and> (\<forall>sm df out r. normalize (Some sm) df = Inr out \<longrightarrow> r \<in> set out \<longrightarrow>
        year r = (if sm \<le> 6
                  then (if dt_month (time r) < sm then dt_year (time r) - 1 else dt_year (time r))
                  else (if dt_month (time r) \<ge> sm then dt_year (time r) + 1 else dt_year (time r))))"
proof (intro conjI allI impI)
  show "\<exists>out. normalize (Some 10) [\<lparr>time = Date 2017 1 15, val = v1\<rparr>,
                                   \<lparr>time = Date 2016 10 5, val = v2\<rparr>] = Inr out
      \<and> map (\<lambda>r. (time r, year r)) out = [(Date 2016 10 5, 2017), (Date 2017 1 15, 2017)]"
    by (simp add: normalize_def fiscal_shift_def calendar_columns_def Let_def date_le_def
        in_window_def window_start_def window_end_def
        date_key_def days_per_month_def fiscal_year_def adjusted_doy_def dayofyear_def
        days_before_month_def days_in_month_def is_leap_year_def week_of_def)
next
  fix sm df out r
  assume "normalize (Some sm) df = Inr out" and r: "r \<in> set out"
  then have "fiscal_shift sm (calendar_columns df) = Inr out"
    by (simp add: normalize_def)
  from fiscal_shift_rows[OF this r] obtain r0 where
    "r0 \<in> set (calendar_columns df)" "time r = time r0" "year r = fiscal_year sm r0"
    by blast
  then show "year r = (if sm \<le> 6
                  then (if dt_month (time r) < sm then dt_year (time r) - 1 else dt_year (time r))
                  else (if dt_month (time r) \<ge> sm then dt_year (time r) + 1 else dt_year (time r)))"
    using calendar_columns_year[of r0 df] by (simp add: fiscal_year_def)
qed

theorem fiscal_shift_correct_witness:
  "normalize (Some 4) [\<lparr>time = Date 2019 5 2, val = None\<rparr>, \<lparr>time = Date 2020 2 10, val = Some 3\<rparr>]
     = Inr [\<lparr>time = Date 2019 5 2, val = None, year = 2019, doy = 1, week_num = 1, month_num = 2\<rparr>,
            \<lparr>time = Date 2020 2 10, val = Some 3, year = 2019, doy = 2, week_num = 1, month_num = 11\<rparr>]
   \<and> year \<lparr>time = Date 2020 2 10, val = Some 3, year = 2019, doy = 2, week_num = 1, month_num = 11\<rparr>
       = 2020 - 1"
proof -
  have n: "normalize (Some 4) [\<lparr>time = Date 2019 5 2, val = None\<rparr>, \<lparr>time = Date 2020 2 10, val = Some 3\<rparr>]
     = Inr [\<lparr>time = Date 2019 5 2, val = None, year = 2019, doy = 1, week_num = 1, month_num = 2\<rparr>,
            \<lparr>time = Date 2020 2 10, val = Some 3, year = 2019, doy = 2, week_num = 1, month_num = 11\<rparr>]"
    by (simp add: normalize_def fiscal_shift_def calendar_columns_def Let_def date_le_def
        in_window_def window_start_def window_end_def
        date_key_def days_per_month_def fiscal_year_def adjusted_doy_def dayofyear_def
        days_before_month_def days_in_month_def is_leap_year_def week_of_def)
  from fiscal_shift_correct[THEN conjunct2, rule_format, OF n,
      of "\<lparr>time = Date 2020 2 10, val = Some 3, year = 2019, doy = 2, week_num = 1, month_num = 11\<rparr>"]
  show ?thesis using n by simp
qed

section \<open>Mode downgrade\<close>

lemma prepare_historical:
  "mode a = Historical \<Longrightarrow> mode b = Historical \<Longrightarrow> start_month a = start_month b \<Longrightarrow>
   prepare a df0 ymin ymax f = prepare b df0 ymin ymax f"
  by (simp add: prepare_def split: sum.split)

text \<open>
  Claim C7.  Constructing the engine with mode statistics and no focus year yields an
  engine in historical mode with the warning recorded, and \<open>add_series\<close> on it raises
  the same error or appends the same series (and leaves the same heap) as on an engine
  constructed with mode historical.
\<close>

theorem mode_downgrade:
  "mode (init Statistics None sm cu) = Historical
   \<and> warnings (init Statistics None sm cu) = [warn_statistics]
   \<and> map_sum id (\<lambda>(s, h'). (series_list s, h'))
        (add_series (init Statistics None sm cu) h r v legend ymin ymax f rw)
     = map_sum id (\<lambda>(s, h'). (series_list s, h'))
        (add_series (init Historical None sm cu) h r v legend ymin ymax f rw)"
proof -
  let ?a = "init Statistics None sm cu" and ?b = "init Historical None sm cu"
  have m: "mode ?a = Historical" "mode ?b = Historical"
    by (simp_all add: init_def Let_def)
  have s: "start_month ?a = start_month ?b" "series_list ?a = series_list ?b"
      "focus_year ?a = focus_year ?b"
    by (simp_all add: init_def Let_def)
  have w: "warnings ?a = [warn_statistics]"
    by (simp add: init_def Let_def)
  have p: "process (?a\<lparr>e_freq := f, e_legend_name := legend, e_rolling_window := rw\<rparr>)
             df0 v legend ymin ymax f
         = process (?b\<lparr>e_freq := f, e_legend_name := legend, e_rolling_window := rw\<rparr>)
             df0 v legend ymin ymax f" for df0
    using m s
    by (simp split: sum.split add: process_def project_def
        prepare_historical[of "?a\<lparr>e_freq := f, e_legend_name := legend, e_rolling_window := rw\<rparr>"
                               "?b\<lparr>e_freq := f, e_legend_name := legend, e_rolling_window := rw\<rparr>"])
  show ?thesis
    using m s w p
    by (simp add: add_series_def Let_def split: prod.splits sum.splits)
qed

section \<open>Frame effect and empty data\<close>

lemma to_datetime_id: "to_datetime df = df"
  by (simp add: to_datetime_def)

lemma groupby_Nil: "groupby key [] = []"
  by (simp add: groupby_def)

lemma resample_Nil: "resample f [] = []"
  by (simp add: resample_def groupby_Nil split: option.split freq.split)




text \<open>
  Claim C8, as stated, fails.  In historical mode with the calendar year, a frame whose
  only row (2001-03-05) is removed by \<open>year_min = 2005\<close> is processed without any error
  and an empty series is appended; the same happens under start month 10 to a frame
  whose only row (2016-03-05) lies outside the fiscal window.
\<close>

theorem empty_rows_no_error:
  "add_series (init Historical None None False) [[\<lparr>time = Date 2001 3 5, val = Some 2\<rparr>]] 0
     ''v'' None (Some 2005) None None None
   = Inr (\<lparr>mode = Historical, focus_year = None, start_month = None, cumul = False,
            e_freq = None, e_legend_name = None, e_rolling_window = None,
            series_list = [\<lparr>s_df = Chrono (Rows []), time_col = ''time'', var_col = ''v'',
                             legend_name = ''v'', s_freq = None, s_rolling_window = None,
                             is_annual_cycle = False, is_statistics = False\<rparr>],
            warnings = []\<rparr>,
          [[\<lparr>time = Date 2001 3 5, val = Some 2\<rparr>], [\<lparr>time = Date 2001 3 5, val = Some 2\<rparr>]])
  \<and> add_series (init Historical None (Some 10) False) [[\<lparr>time = Date 2016 3 5, val = Some 1\<rparr>]] 0
     ''v'' None None None None None
   = Inr (\<lparr>mode = Historical, focus_year = None, start_month = Some 10, cumul = False,
            e_freq = None, e_legend_name = None, e_rolling_window = None,
            series_list = [\<lparr>s_df = Chrono (Rows []), time_col = ''time'', var_col = ''v'',
                             legend_name = ''v'', s_freq = None, s_rolling_window = None,
                             is_annual_cycle = False, is_statistics = False\<rparr>],
            warnings = []\<rparr>,
          [[\<lparr>time = Date 2016 3 5, val = Some 1\<rparr>], [\<lparr>time = Date 2016 3 5, val = Some 1\<rparr>]])"
  by code_simp

lemma gap_fill_Nil: "gap_fill [] = []"
  by (simp add: gap_fill_def complete_years_def start_end_dates_def groupby_Nil)

lemma fiscal_shift_outside:
  "dfa \<noteq> [] \<Longrightarrow> sm \<le> 12 \<Longrightarrow> \<forall>r \<in> set dfa. \<not> in_window sm dfa r \<Longrightarrow> fiscal_shift sm dfa = Inr []"
  by (simp add: fiscal_shift_def Let_def filter_False)

text \<open>
  Claim C8, amended.  In historical mode without a rolling window, \<open>add_series\<close> raises
  nothing and appends one series with an empty frame when the rows are empty after year
  filtering under the calendar year, and also when a custom start month is set and the
  frame is not empty but none of its rows lies inside the fiscal window.
\<close>

theorem empty_data_processed:
  "mode self = Historical \<Longrightarrow>
   (start_month self = None \<and> year_filter ymin ymax (h ! df_ref) = []) \<or>
   (\<exists>sm. start_month self = Some sm \<and> sm \<le> 12
       \<and> calendar_columns (gap_fill (year_filter ymin ymax (h ! df_ref))) \<noteq> []
       \<and> (\<forall>r \<in> set (calendar_columns (gap_fill (year_filter ymin ymax (h ! df_ref)))).
             \<not> in_window sm (calendar_columns (gap_fill (year_filter ymin ymax (h ! df_ref)))) r)) \<Longrightarrow>
   add_series self h df_ref v l ymin ymax f None
     = Inr (self\<lparr>e_freq := f, e_legend_name := l, e_rolling_window := None,
                 series_list := series_list self @
                   [\<lparr>s_df = Chrono (Rows []), time_col = ''time'', var_col = v,
                     legend_name = legend_or l v, s_freq = f, s_rolling_window = None,
                     is_annual_cycle = False, is_statistics = False\<rparr>]\<rparr>,
            h @ [h ! df_ref])"
proof -
  assume m: "mode self = Historical"
  assume "(start_month self = None \<and> year_filter ymin ymax (h ! df_ref) = []) \<or>
   (\<exists>sm. start_month self = Some sm \<and> sm \<le> 12
       \<and> calendar_columns (gap_fill (year_filter ymin ymax (h ! df_ref))) \<noteq> []
       \<and> (\<forall>r \<in> set (calendar_columns (gap_fill (year_filter ymin ymax (h ! df_ref)))).
             \<not> in_window sm (calendar_columns (gap_fill (year_filter ymin ymax (h ! df_ref)))) r))"
  then have n: "normalize (start_month self) (gap_fill (year_filter ymin ymax (h ! df_ref))) = Inr []"
  proof
    assume "start_month self = None \<and> year_filter ymin ymax (h ! df_ref) = []"
    then show ?thesis
      by (simp add: normalize_def gap_fill_Nil calendar_columns_def)
  next
    assume "\<exists>sm. start_month self = Some sm \<and> sm \<le> 12
       \<and> calendar_columns (gap_fill (year_filter ymin ymax (h ! df_ref))) \<noteq> []
       \<and> (\<forall>r \<in> set (calendar_columns (gap_fill (year_filter ymin ymax (h ! df_ref)))).
             \<not> in_window sm (calendar_columns (gap_fill (year_filter ymin ymax (h ! df_ref)))) r)"
    then show ?thesis
      by (auto simp: normalize_def fiscal_shift_outside)
  qed
  have p: "prepare (self\<lparr>e_freq := f, e_legend_name := l, e_rolling_window := None\<rparr>) (h ! df_ref) ymin ymax f = Inr []"
    using n m by (simp add: prepare_def resample_Nil)
  show ?thesis
    using m p
    by (simp add: add_series_def Let_def df_copy_def to_datetime_id process_def
        rolling_stage_def project_def historical_series_def)
qed

theorem empty_data_processed_witness:
  "mode (init Historical None None False) = Historical
   \<and> start_month (init Historical None None False) = None
   \<and> year_filter (Some 2005) None ([[\<lparr>time = Date 2001 3 5, val = Some 2\<rparr>]] ! 0) = []
   \<and> add_series (init Historical None None False) [[\<lparr>time = Date 2001 3 5, val = Some 2\<rparr>]] 0
         ''v'' None (Some 2005) None (Some W) None
       = Inr ((init Historical None None False)\<lparr>e_freq := Some W, e_legend_name := None,
                 e_rolling_window := None,
                 series_list := series_list (init Historical None None False) @
                   [\<lparr>s_df = Chrono (Rows []), time_col = ''time'', var_col = ''v'',
                     legend_name = legend_or None ''v'', s_freq = Some W, s_rolling_window = None,
                     is_annual_cycle = False, is_statistics = False\<rparr>]\<rparr>,
              [[\<lparr>time = Date 2001 3 5, val = Some 2\<rparr>]] @ [[[\<lparr>time = Date 2001 3 5, val = Some 2\<rparr>]] ! 0])"
proof -
  have m: "mode (init Historical None None False) = Historical"
    and s: "start_month (init Historical None None False) = None"
    by (simp_all add: init_def Let_def)
  have y: "year_filter (Some 2005) None ([[\<lparr>time = Date 2001 3 5, val = Some 2\<rparr>]] ! 0) = []"
    by (simp add: year_filter_def)
  from empty_data_processed[OF m disjI1, OF conjI, OF s y] m s y
  show ?thesis by blast
qed

section \<open>Rolling averager\<close>




































section \<open>Statistics quantiles\<close>
















section \<open>Calendar arithmetic\<close>

lemma month_cases:
  fixes m :: int
  assumes "1 \<le> m" "m \<le> 12"
  obtains "m = 1" | "m = 2" | "m = 3" | "m = 4" | "m = 5" | "m = 6"
        | "m = 7" | "m = 8" | "m = 9" | "m = 10" | "m = 11" | "m = 12"
proof -
  from assms have "m = 1 \<or> m = 2 \<or> m = 3 \<or> m = 4 \<or> m = 5 \<or> m = 6
      \<or> m = 7 \<or> m = 8 \<or> m = 9 \<or> m = 10 \<or> m = 11 \<or> m = 12"
    by arith
  with that show thesis by blast
qed

lemmas upto_one = upto.simps[of 1 "numeral n"] for n

lemma adjusted_doy_table:
  assumes "valid_date t" "\<not> (dt_month t = 2 \<and> dt_day t = 29)"
  shows "adjusted_doy t = sum_list (map days_per_month [1..dt_month t - 1]) + dt_day t"
proof -
  from assms(1) have m: "1 \<le> dt_month t" "dt_month t \<le> 12"
    and d: "1 \<le> dt_day t" "dt_day t \<le> days_in_month (dt_year t) (dt_month t)"
    by (simp_all add: valid_date_def)
  show ?thesis
    by (rule month_cases[OF m]; insert d assms(2);
        simp add: adjusted_doy_def dayofyear_def days_before_month_def days_in_month_def
                  days_per_month_def upto_one split: if_splits)
qed

lemma adjusted_doy_range:
  assumes "valid_date t" "\<not> (dt_month t = 2 \<and> dt_day t = 29)"
  shows "1 \<le> adjusted_doy t \<and> adjusted_doy t \<le> 365"
proof -
  from assms(1) have m: "1 \<le> dt_month t" "dt_month t \<le> 12"
    and d: "1 \<le> dt_day t" "dt_day t \<le> days_in_month (dt_year t) (dt_month t)"
    by (simp_all add: valid_date_def)
  show ?thesis
    unfolding adjusted_doy_table[OF assms]
    by (rule month_cases[OF m]; insert d assms(2);
        simp add: days_in_month_def days_per_month_def upto_one split: if_splits)
qed

lemma doy_decompose:
  fixes k :: int
  assumes "1 \<le> k" "k \<le> 365"
  obtains m d where "1 \<le> m" "m \<le> 12" "1 \<le> d" "d \<le> days_per_month m"
    "sum_list (map days_per_month [1..m - 1]) + d = k"
proof -
  from assms consider "0 < k \<and> k \<le> 31" | "31 < k \<and> k \<le> 59" | "59 < k \<and> k \<le> 90" | "90 < k \<and> k \<le> 120" | "120 < k \<and> k \<le> 151" | "151 < k \<and> k \<le> 181" | "181 < k \<and> k \<le> 212" | "212 < k \<and> k \<le> 243" | "243 < k \<and> k \<le> 273" | "273 < k \<and> k \<le> 304" | "304 < k \<and> k \<le> 334" | "334 < k \<and> k \<le> 365"
    by linarith
  then show thesis
  proof cases
    case 1
    then show ?thesis
      by (intro that[of 1 "k - 0"]) (simp_all add: days_per_month_def upto_one)
  next
    case 2
    then show ?thesis
      by (intro that[of 2 "k - 31"]) (simp_all add: days_per_month_def upto_one)
  next
    case 3
    then show ?thesis
      by (intro that[of 3 "k - 59"]) (simp_all add: days_per_month_def upto_one)
  next
    case 4
    then show ?thesis
      by (intro that[of 4 "k - 90"]) (simp_all add: days_per_month_def upto_one)
  next
    case 5
    then show ?thesis
      by (intro that[of 5 "k - 120"]) (simp_all add: days_per_month_def upto_one)
  next
    case 6
    then show ?thesis
      by (intro that[of 6 "k - 151"]) (simp_all add: days_per_month_def upto_one)
  next
    case 7
    then show ?thesis
      by (intro that[of 7 "k - 181"]) (simp_all add: days_per_month_def upto_one)
  next
    case 8
    then show ?thesis
      by (intro that[of 8 "k - 212"]) (simp_all add: days_per_month_def upto_one)
  next
    case 9
    then show ?thesis
      by (intro that[of 9 "k - 243"]) (simp_all add: days_per_month_def upto_one)
  next
    case 10
    then show ?thesis
      by (intro that[of 10 "k - 273"]) (simp_all add: days_per_month_def upto_one)
  next
    case 11
    then show ?thesis
      by (intro that[of 11 "k - 304"]) (simp_all add: days_per_month_def upto_one)
  next
    case 12
    then show ?thesis
      by (intro that[of 12 "k - 334"]) (simp_all add: days_per_month_def upto_one)
  qed
qed

lemma days_per_month_le:
  "1 \<le> m \<Longrightarrow> m \<le> 12 \<Longrightarrow> days_per_month m \<le> days_in_month y m"
  by (simp add: days_per_month_def days_in_month_def)

lemma set_days_of_year:
  "set (days_of_year y) = {t. dt_year t = y \<and> valid_date t}"
proof -
  have "t \<in> set (days_of_year y) \<longleftrightarrow> dt_year t = y \<and> valid_date t" for t
    by (cases t) (auto simp: days_of_year_def days_of_month_def valid_date_def image_iff Bex_def)
  then show ?thesis by blast
qed

lemma set_date_range:
  "set (date_range y1 y2) = {t. y1 \<le> dt_year t \<and> dt_year t \<le> y2 \<and> valid_date t}"
  by (auto simp: date_range_def set_days_of_year)

lemma complete_year_doys:
  "adjusted_doy ` {t. dt_year t = y \<and> valid_date t \<and> \<not> (dt_month t = 2 \<and> dt_day t = 29)} = {1..365}"
proof (intro equalityI subsetI)
  fix k assume "k \<in> adjusted_doy ` {t. dt_year t = y \<and> valid_date t \<and> \<not> (dt_month t = 2 \<and> dt_day t = 29)}"
  then show "k \<in> {1..365}" using adjusted_doy_range by auto
next
  fix k :: int assume "k \<in> {1..365}"
  then have k: "1 \<le> k" "k \<le> 365" by simp_all
  from doy_decompose[OF k] obtain m d where md: "1 \<le> m" "m \<le> 12" "1 \<le> d" "d \<le> days_per_month m"
    "sum_list (map days_per_month [1..m - 1]) + d = k"
    by blast
  let ?t = "Date y m d"
  have v: "valid_date ?t"
    using md days_per_month_le[of m y] by (simp add: valid_date_def)
  have f: "\<not> (dt_month ?t = 2 \<and> dt_day ?t = 29)"
    using md(4) by (auto simp: days_per_month_def)
  have "adjusted_doy ?t = k"
    using adjusted_doy_table[OF v f] md(5) by simp
  with v f show "k \<in> adjusted_doy ` {t. dt_year t = y \<and> valid_date t \<and> \<not> (dt_month t = 2 \<and> dt_day t = 29)}"
    by (intro image_eqI[where x = ?t]) simp_all
qed

section \<open>Day-of-year coverage\<close>

lemma calendar_columns_rows:
  "r \<in> set (calendar_columns df) \<Longrightarrow>
   time r \<in> time ` set df \<and> \<not> (dt_month (time r) = 2 \<and> dt_day (time r) = 29) \<and>
   year r = dt_year (time r) \<and> doy r = adjusted_doy (time r) \<and> week_num r = week_of (doy r)"
  by (auto simp: calendar_columns_def)

lemma calendar_columns_times:
  "time ` set (calendar_columns df)
     = {t \<in> time ` set df. \<not> (dt_month t = 2 \<and> dt_day t = 29)}"
  by (auto simp: calendar_columns_def image_iff)

lemma calendar_complete_year:
  assumes "set (days_of_year y) \<subseteq> time ` set df" and "\<forall>p \<in> set df. valid_date (time p)"
  shows "doy ` {r \<in> set (calendar_columns df). year r = y} = {1..365}"
proof -
  have "doy ` {r \<in> set (calendar_columns df). year r = y}
      = adjusted_doy ` {t \<in> time ` set (calendar_columns df). dt_year t = y}"
    using calendar_columns_rows[of _ df] by (force simp: image_iff)
  also have "{t \<in> time ` set (calendar_columns df). dt_year t = y}
      = {t. dt_year t = y \<and> valid_date t \<and> \<not> (dt_month t = 2 \<and> dt_day t = 29)}"
    unfolding calendar_columns_times using assms by (auto simp: set_days_of_year)
  finally show ?thesis by (simp only: complete_year_doys)
qed





section \<open>Gap filler\<close>

lemma length_interpolate_from: "length (interpolate_from st vs) = length vs"
  by (induction st vs rule: interpolate_from.induct) auto

lemma map_time_interpolate: "map time (interpolate df) = map time df"
proof -
  have "map time (map (\<lambda>(r, v). r\<lparr>val := v\<rparr>) (zip df vs)) = map time df"
    if "length vs = length df" for vs :: "rat option list"
    using that by (induction df vs rule: list_induct2') auto
  then show ?thesis
    by (simp add: interpolate_def length_interpolate_from)
qed

lemma length_interpolate: "length (interpolate df) = length df"
  using arg_cong[OF map_time_interpolate, of length df] by simp

lemma nth_interpolate:
  "i < length df \<Longrightarrow>
   interpolate df ! i = (df ! i)\<lparr>val := interpolate_from None (map val df) ! i\<rparr>"
  by (simp add: interpolate_def length_interpolate_from)

lemma set_time_left_join: "time ` set (left_join idx df) = set idx"
proof -
  have "time ` set (case filter (\<lambda>r. time r = d) df of [] \<Rightarrow> [\<lparr>time = d, val = None\<rparr>] | ms \<Rightarrow> ms) = {d}" for d
  proof (cases "filter (\<lambda>r. time r = d) df")
    case Nil
    then show ?thesis by simp
  next
    case (Cons a ms)
    have "set (filter (\<lambda>r. time r = d) df) \<subseteq> {r. time r = d}"
      by auto
    then have "set (a # ms) \<subseteq> {r. time r = d}"
      unfolding Cons .
    then show ?thesis unfolding Cons by auto
  qed
  then show ?thesis
    by (auto simp: left_join_def image_UN)
qed

lemma gap_fill_none: "complete_years df = [] \<Longrightarrow> gap_fill df = df"
  by (simp add: gap_fill_def)

lemma gap_fill_some:
  "complete_years df \<noteq> [] \<Longrightarrow>
   gap_fill df = interpolate (left_join (complete_range df) df)"
  by (simp add: gap_fill_def)

lemma gap_fill_times:
  assumes "complete_years df \<noteq> []"
  shows "time ` set (gap_fill df)
     = {t. Min (set (complete_years df)) \<le> dt_year t \<and> dt_year t \<le> Max (set (complete_years df))
           \<and> valid_date t}"
proof -
  have "time ` set (gap_fill df) = set (map time (gap_fill df))" by simp
  also have "\<dots> = set (complete_range df)"
    unfolding gap_fill_some[OF assms] map_time_interpolate by (simp add: set_time_left_join)
  finally show ?thesis by (simp add: complete_range_def set_date_range)
qed

lemma interpolate_from_Cons:
  "\<exists>x st'. interpolate_from st (v # vs) = x # interpolate_from st' vs"
  by (cases "(st, v # vs)" rule: interpolate_from.cases) auto

lemma interpolate_from_midpoint:
  assumes "i + 2 < length vs" "vs ! i = Some a" "vs ! (i + 1) = None" "vs ! (i + 2) = Some b"
  shows "interpolate_from st vs ! (i + 1) = Some ((a + b) / 2)"
  using assms
proof (induction i arbitrary: vs st)
  case 0
  then obtain rest where "vs = Some a # None # Some b # rest"
    by (cases vs; cases "tl vs"; cases "tl (tl vs)") auto
  then show ?case by (simp add: field_simps)
next
  case (Suc i)
  then obtain v vs' where vs: "vs = v # vs'" by (cases vs) auto
  from interpolate_from_Cons[of st v vs'] obtain x st' where
    "interpolate_from st (v # vs') = x # interpolate_from st' vs'" by blast
  moreover have "interpolate_from st' vs' ! (i + 1) = Some ((a + b) / 2)"
    using Suc.prems unfolding vs by (intro Suc.IH) simp_all
  ultimately show ?case unfolding vs by simp
qed

lemma left_join_distinct:
  assumes "distinct (map time df)"
  shows "left_join idx df
     = map (\<lambda>d. case filter (\<lambda>r. time r = d) df of [] \<Rightarrow> \<lparr>time = d, val = None\<rparr> | r # _ \<Rightarrow> r) idx"
proof -
  have "length (filter (\<lambda>r. time r = d) df) \<le> 1" for d
    using assms
  proof (induction df)
    case Nil
    then show ?case by simp
  next
    case (Cons p df)
    from Cons.prems have "time p \<notin> time ` set df"
      by simp
    then have "filter (\<lambda>r. time r = time p) df = []"
      unfolding filter_empty_conv by (metis imageI)
    moreover have "length (filter (\<lambda>r. time r = d) df) \<le> 1"
      using Cons by simp
    ultimately show ?case by (cases "time p = d") auto
  qed
  then have "(case filter (\<lambda>r. time r = d) df of [] \<Rightarrow> [\<lparr>time = d, val = None\<rparr>] | ms \<Rightarrow> ms)
      = [case filter (\<lambda>r. time r = d) df of [] \<Rightarrow> \<lparr>time = d, val = None\<rparr> | r # _ \<Rightarrow> r]" for d
    by (cases "filter (\<lambda>r. time r = d) df"; cases "tl (filter (\<lambda>r. time r = d) df)")
       (auto dest: meta_spec[of _ d])
  then show ?thesis
    by (simp add: left_join_def concat_map_singleton)
qed

lemma filter_time_distinct:
  "distinct (map time df) \<Longrightarrow> r \<in> set df \<Longrightarrow> filter (\<lambda>x. time x = time r) df = [r]"
proof (induction df)
  case Nil
  then show ?case by simp
next
  case (Cons p df)
  show ?case
  proof (cases "r = p")
    case True
    from Cons.prems have "time p \<notin> time ` set df" by simp
    then have "filter (\<lambda>x. time x = time p) df = []"
      unfolding filter_empty_conv by (metis imageI)
    with True show ?thesis by simp
  next
    case False
    with Cons.prems have r: "r \<in> set df" by simp
    with Cons.prems have "time p \<noteq> time r" by force
    with Cons r show ?thesis by simp
  qed
qed

lemma gap_fill_midpoint:
  assumes cy: "complete_years df \<noteq> []" and dist: "distinct (map time df)"
    and i: "i + 2 < length (complete_range df)"
    and a: "\<lparr>time = complete_range df ! i, val = Some a\<rparr> \<in> set df"
    and n: "complete_range df ! (i + 1) \<notin> time ` set df"
    and b: "\<lparr>time = complete_range df ! (i + 2), val = Some b\<rparr> \<in> set df"
  shows "gap_fill df ! (i + 1) = \<lparr>time = complete_range df ! (i + 1), val = Some ((a + b) / 2)\<rparr>"
proof -
  define idx where "idx = complete_range df"
  define g where
    "g = (\<lambda>d. case filter (\<lambda>r. time r = d) df of [] \<Rightarrow> \<lparr>time = d, val = None\<rparr> | r # _ \<Rightarrow> r)"
  define J where "J = map g idx"
  have lj: "left_join idx df = J"
    unfolding J_def g_def by (rule left_join_distinct[OF dist])
  have ga: "g (idx ! i) = \<lparr>time = idx ! i, val = Some a\<rparr>"
    using filter_time_distinct[OF dist a] unfolding g_def idx_def by simp
  have gb: "g (idx ! (i + 2)) = \<lparr>time = idx ! (i + 2), val = Some b\<rparr>"
    using filter_time_distinct[OF dist b] unfolding g_def idx_def by simp
  have "filter (\<lambda>r. time r = idx ! (i + 1)) df = []"
    using n unfolding filter_empty_conv idx_def by (metis imageI)
  then have gn: "g (idx ! (i + 1)) = \<lparr>time = idx ! (i + 1), val = None\<rparr>"
    unfolding g_def by simp
  have len: "i + 2 < length idx" using i unfolding idx_def .
  have Ja: "J ! i = \<lparr>time = idx ! i, val = Some a\<rparr>"
    and Jn: "J ! (i + 1) = \<lparr>time = idx ! (i + 1), val = None\<rparr>"
    and Jb: "J ! (i + 2) = \<lparr>time = idx ! (i + 2), val = Some b\<rparr>"
    unfolding J_def using len ga gn gb by (simp_all only: nth_map) 
  have lenJ: "i + 2 < length J" using len unfolding J_def by simp
  have "interpolate_from None (map val J) ! (i + 1) = Some ((a + b) / 2)"
  proof (rule interpolate_from_midpoint)
    show "i + 2 < length (map val J)" using lenJ by simp
    show "map val J ! i = Some a" using lenJ Ja by simp
    show "map val J ! (i + 1) = None" using lenJ Jn by simp
    show "map val J ! (i + 2) = Some b" using lenJ Jb by simp
  qed
  moreover have "i + 1 < length J" using lenJ by simp
  ultimately have "interpolate J ! (i + 1) = \<lparr>time = idx ! (i + 1), val = Some ((a + b) / 2)\<rparr>"
    using Jn by (simp add: nth_interpolate)
  then show ?thesis
    unfolding gap_fill_some[OF cy] idx_def[symmetric] lj .
qed

text \<open>
  Claim C1, amended.  When no calendar year is complete the gap filler returns the rows
  unmodified.  Otherwise it rebuilds the frame on the daily index: the dates of the
  result are exactly the days from January 1 of the earliest complete year to December
  31 of the latest one, so every day in that span has a row and no row outside it is
  kept.  With one row per day in the input, a day of the span without a row, whose two
  adjacent days hold values \<open>a\<close> and \<open>b\<close>, gets a row with the linear interpolation
  \<open>(a + b) / 2\<close>.
\<close>

theorem gap_fill_span:
  "(complete_years df = [] \<longrightarrow> gap_fill df = df)
   \<and> (complete_years df \<noteq> [] \<longrightarrow>
        time ` set (gap_fill df) = set (complete_range df)
        \<and> set (complete_range df)
            = {t. Min (set (complete_years df)) \<le> dt_year t
                  \<and> dt_year t \<le> Max (set (complete_years df)) \<and> valid_date t})
   \<and> (complete_years df \<noteq> [] \<longrightarrow> distinct (map time df) \<longrightarrow>
        i + 2 < length (complete_range df) \<longrightarrow>
        \<lparr>time = complete_range df ! i, val = Some a\<rparr> \<in> set df \<longrightarrow>
        complete_range df ! (i + 1) \<notin> time ` set df \<longrightarrow>
        \<lparr>time = complete_range df ! (i + 2), val = Some b\<rparr> \<in> set df \<longrightarrow>
        gap_fill df ! (i + 1) = \<lparr>time = complete_range df ! (i + 1), val = Some ((a + b) / 2)\<rparr>)"
proof (intro conjI impI)
  assume "complete_years df = []"
  then show "gap_fill df = df" by (rule gap_fill_none)
next
  assume cy: "complete_years df \<noteq> []"
  show "set (complete_range df)
            = {t. Min (set (complete_years df)) \<le> dt_year t
                  \<and> dt_year t \<le> Max (set (complete_years df)) \<and> valid_date t}"
    by (simp add: complete_range_def set_date_range)
  with gap_fill_times[OF cy] show "time ` set (gap_fill df) = set (complete_range df)"
    by simp
next
  assume "complete_years df \<noteq> []" "distinct (map time df)"
    "i + 2 < length (complete_range df)"
    "\<lparr>time = complete_range df ! i, val = Some a\<rparr> \<in> set df"
    "complete_range df ! (i + 1) \<notin> time ` set df"
    "\<lparr>time = complete_range df ! (i + 2), val = Some b\<rparr> \<in> set df"
  then show "gap_fill df ! (i + 1)
      = \<lparr>time = complete_range df ! (i + 1), val = Some ((a + b) / 2)\<rparr>"
    by (rule gap_fill_midpoint)
qed

lemma range_2001: "length (date_range 2001 2001) = 365"
  "date_range 2001 2001 ! 0 = Date 2001 1 1"
  "date_range 2001 2001 ! Suc 0 = Date 2001 1 2"
  "date_range 2001 2001 ! Suc (Suc 0) = Date 2001 1 3"
  by code_simp+

theorem gap_fill_span_witness:
  "complete_years [\<lparr>time = Date 2001 1 1, val = Some 1\<rparr>, \<lparr>time = Date 2001 1 3, val = Some 3\<rparr>,
                   \<lparr>time = Date 2001 12 31, val = None\<rparr>] = [2001]
   \<and> gap_fill [\<lparr>time = Date 2001 1 1, val = Some 1\<rparr>, \<lparr>time = Date 2001 1 3, val = Some 3\<rparr>,
               \<lparr>time = Date 2001 12 31, val = None\<rparr>] ! 1 = \<lparr>time = Date 2001 1 2, val = Some 2\<rparr>"
proof -
  let ?df = "[\<lparr>time = Date 2001 1 1, val = Some 1\<rparr>, \<lparr>time = Date 2001 1 3, val = Some 3\<rparr>,
              \<lparr>time = Date 2001 12 31, val = None\<rparr>]"
  have cy: "complete_years ?df = [2001]" by code_simp
  then have cr: "complete_range ?df = date_range 2001 2001"
    by (simp add: complete_range_def)
  have "gap_fill ?df ! (0 + 1) = \<lparr>time = complete_range ?df ! (0 + 1), val = Some ((1 + 3) / 2)\<rparr>"
    by (rule gap_fill_span[THEN conjunct2, THEN conjunct2, rule_format])
       (simp_all add: cy cr range_2001)
  with cy show ?thesis by (simp add: cr range_2001)
qed

lemma length_gap_fill:
  "complete_years df \<noteq> [] \<Longrightarrow> distinct (map time df) \<Longrightarrow>
   length (gap_fill df) = length (complete_range df)"
  by (simp add: gap_fill_some length_interpolate left_join_distinct)

lemma range_2000_2002: "length (date_range 2000 2002) = 1096"
  "date_range 2000 2002 ! 429 = Date 2001 3 5"
  "date_range 2000 2002 ! 430 = Date 2001 3 6"
  "date_range 2000 2002 ! 431 = Date 2001 3 7"
  by code_simp+

text \<open>
  Claim C1, as stated, fails.  Years 2000 and 2002 are complete and 2001 is not: it has
  two rows, March 5 and March 7.  The result has a row for each of the 1096 days of
  2000 to 2002, so rows are added to 2001, and March 6 of 2001 holds the interpolated
  value 8.
\<close>

theorem incomplete_year_filled:
  "complete_years [\<lparr>time = Date 2000 1 1, val = None\<rparr>, \<lparr>time = Date 2000 12 31, val = None\<rparr>,
                   \<lparr>time = Date 2001 3 5, val = Some 7\<rparr>, \<lparr>time = Date 2001 3 7, val = Some 9\<rparr>,
                   \<lparr>time = Date 2002 1 1, val = None\<rparr>, \<lparr>time = Date 2002 12 31, val = None\<rparr>]
     = [2000, 2002]
   \<and> length (gap_fill [\<lparr>time = Date 2000 1 1, val = None\<rparr>, \<lparr>time = Date 2000 12 31, val = None\<rparr>,
                   \<lparr>time = Date 2001 3 5, val = Some 7\<rparr>, \<lparr>time = Date 2001 3 7, val = Some 9\<rparr>,
                   \<lparr>time = Date 2002 1 1, val = None\<rparr>, \<lparr>time = Date 2002 12 31, val = None\<rparr>])
     = 1096
   \<and> gap_fill [\<lparr>time = Date 2000 1 1, val = None\<rparr>, \<lparr>time = Date 2000 12 31, val = None\<rparr>,
                   \<lparr>time = Date 2001 3 5, val = Some 7\<rparr>, \<lparr>time = Date 2001 3 7, val = Some 9\<rparr>,
                   \<lparr>time = Date 2002 1 1, val = None\<rparr>, \<lparr>time = Date 2002 12 31, val = None\<rparr>] ! 430
     = \<lparr>time = Date 2001 3 6, val = Some 8\<rparr>"
proof -
  let ?df = "[\<lparr>time = Date 2000 1 1, val = None\<rparr>, \<lparr>time = Date 2000 12 31, val = None\<rparr>,
                   \<lparr>time = Date 2001 3 5, val = Some 7\<rparr>, \<lparr>time = Date 2001 3 7, val = Some 9\<rparr>,
                   \<lparr>time = Date 2002 1 1, val = None\<rparr>, \<lparr>time = Date 2002 12 31, val = None\<rparr>]"
  have cy: "complete_years ?df = [2000, 2002]" by code_simp
  then have cr: "complete_range ?df = date_range 2000 2002"
    by (simp add: complete_range_def)
  have ne: "complete_years ?df \<noteq> []" using cy by simp
  have d: "distinct (map time ?df)" by simp
  have "gap_fill ?df ! (429 + 1) = \<lparr>time = complete_range ?df ! (429 + 1), val = Some ((7 + 9) / 2)\<rparr>"
    by (rule gap_fill_midpoint[OF ne d]) (simp_all add: cr range_2000_2002)
  then have "gap_fill ?df ! 430 = \<lparr>time = Date 2001 3 6, val = Some 8\<rparr>"
    by (simp add: cr range_2000_2002)
  moreover have "length (gap_fill ?df) = 1096"
    unfolding length_gap_fill[OF ne d] cr by (rule range_2000_2002)
  ultimately show ?thesis using cy by simp
qed

section \<open>Week buckets and the leap-year adjustment\<close>

lemma fiscal_shift_week:
  assumes "fiscal_shift sm dfa = Inr out" "r \<in> set out"
  shows "week_num r = week_of (doy r)"
proof -
  from assms(1) obtain w4 where
    "out = sort_key (\<lambda>r. (year r, doy r)) (map (\<lambda>r. r\<lparr>week_num := week_of (doy r)\<rparr>) w4)"
    by (auto simp: fiscal_shift_def Let_def split: if_splits)
  with assms(2) show ?thesis by auto
qed

lemma normalize_week:
  assumes "normalize sm df = Inr out" "r \<in> set out"
  shows "week_num r = week_of (doy r)"
proof (cases sm)
  case None
  with assms show ?thesis by (auto simp: normalize_def dest: calendar_columns_rows)
next
  case (Some m)
  with assms show ?thesis by (auto simp: normalize_def dest: fiscal_shift_week)
qed


lemma week_of_image: "week_of ` {1..365} = {1..52}"
proof (intro equalityI subsetI)
  fix w assume "w \<in> week_of ` {1..365}"
  then obtain d where "1 \<le> d" "d \<le> 365" "w = week_of d" by auto
  then show "w \<in> {1..52}" by (auto simp: week_of_def Let_def)
next
  fix w :: int assume "w \<in> {1..52}"
  then have "7 * w - 6 \<in> {1..365}" "week_of (7 * w - 6) = w"
    by (auto simp: week_of_def Let_def)
  then show "w \<in> week_of ` {1..365}" by (metis image_eqI)
qed

lemma week_52_days: "{d \<in> {1..365}. week_of d = 52} = {358..365}"
  by (auto simp: week_of_def Let_def split: if_splits)

text \<open>
  Claim C5, amended.  Every emitted row has \<open>week_num = min ((doy - 1) div 7 + 1) 52\<close>.
  For a fiscal year whose rows carry all the day-of-year values 1 to 365 (a complete
  year), the week numbers are exactly 1 to 52 and bucket 52 holds exactly the 8
  day-of-year values 358 to 365, in leap years and in other years alike.
\<close>

theorem week_coverage:
  assumes "normalize sm df = Inr out" and "doy ` {r \<in> set out. year r = y} = {1..365}"
  shows "(\<forall>r \<in> set out. week_num r = (if (doy r - 1) div 7 + 1 > 52 then 52 else (doy r - 1) div 7 + 1))
       \<and> week_num ` {r \<in> set out. year r = y} = {1..52}
       \<and> doy ` {r \<in> set out. year r = y \<and> week_num r = 52} = {358..365}
       \<and> card (doy ` {r \<in> set out. year r = y \<and> week_num r = 52}) = 8"
proof -
  note wk = normalize_week[OF assms(1)]
  have 1: "\<forall>r \<in> set out. week_num r = (if (doy r - 1) div 7 + 1 > 52 then 52 else (doy r - 1) div 7 + 1)"
    using wk by (simp add: week_of_def Let_def)
  have "week_num ` {r \<in> set out. year r = y} = week_of ` doy ` {r \<in> set out. year r = y}"
    using wk by (force simp: image_iff)
  then have 2: "week_num ` {r \<in> set out. year r = y} = {1..52}"
    unfolding assms(2) week_of_image .
  have "doy ` {r \<in> set out. year r = y \<and> week_num r = 52}
      = {d \<in> doy ` {r \<in> set out. year r = y}. week_of d = 52}"
    using wk by (force simp: image_iff)
  then have 3: "doy ` {r \<in> set out. year r = y \<and> week_num r = 52} = {358..365}"
    unfolding assms(2) week_52_days .
  have 4: "card (doy ` {r \<in> set out. year r = y \<and> week_num r = 52}) = 8"
    unfolding 3 by simp
  from 1 2 3 4 show ?thesis by blast
qed

text \<open>
  Claim C5, as stated, fails: 2001 is not a leap year, and the complete year 2001 has the
  8 days December 24 to 31 (day-of-year 358 to 365) in week bucket 52.
\<close>

theorem week_52_has_8_days_in_2001:
  "map_sum id (\<lambda>out. map (\<lambda>r. (time r, doy r)) (filter (\<lambda>r. week_num r = 52) out))
     (prepare (init Historical None None False)
        [\<lparr>time = Date 2001 1 1, val = None\<rparr>, \<lparr>time = Date 2001 12 31, val = None\<rparr>]
        None None None)
   = Inr [(Date 2001 12 24, 358), (Date 2001 12 25, 359), (Date 2001 12 26, 360),
          (Date 2001 12 27, 361), (Date 2001 12 28, 362), (Date 2001 12 29, 363),
          (Date 2001 12 30, 364), (Date 2001 12 31, 365)]
   \<and> \<not> is_leap_year 2001"
  by code_simp

lemma year_2001_filled:
  "complete_years [\<lparr>time = Date 2001 1 1, val = None\<rparr>, \<lparr>time = Date 2001 12 31, val = None\<rparr>] = [2001]"
  by code_simp

lemma year_2001_times:
  "time ` set (gap_fill [\<lparr>time = Date 2001 1 1, val = None\<rparr>, \<lparr>time = Date 2001 12 31, val = None\<rparr>])
     = set (days_of_year 2001)"
  using gap_fill_times[of "[\<lparr>time = Date 2001 1 1, val = None\<rparr>, \<lparr>time = Date 2001 12 31, val = None\<rparr>]"]
  by (simp add: year_2001_filled set_days_of_year) fastforce

lemma year_2001_valid:
  "list_all (\<lambda>p. valid_date (time p))
     (gap_fill [\<lparr>time = Date 2001 1 1, val = None\<rparr>, \<lparr>time = Date 2001 12 31, val = None\<rparr>])"
  unfolding list_all_iff using year_2001_times by (auto simp: set_days_of_year)

theorem week_coverage_witness:
  "normalize None (gap_fill [\<lparr>time = Date 2001 1 1, val = None\<rparr>, \<lparr>time = Date 2001 12 31, val = None\<rparr>])
     = Inr (calendar_columns (gap_fill [\<lparr>time = Date 2001 1 1, val = None\<rparr>,
                                         \<lparr>time = Date 2001 12 31, val = None\<rparr>]))
   \<and> doy ` {r \<in> set (calendar_columns (gap_fill [\<lparr>time = Date 2001 1 1, val = None\<rparr>,
                                                     \<lparr>time = Date 2001 12 31, val = None\<rparr>])).
              year r = 2001} = {1..365}
   \<and> week_num ` {r \<in> set (calendar_columns (gap_fill [\<lparr>time = Date 2001 1 1, val = None\<rparr>,
                                                     \<lparr>time = Date 2001 12 31, val = None\<rparr>])).
              year r = 2001} = {1..52}
   \<and> card (doy ` {r \<in> set (calendar_columns (gap_fill [\<lparr>time = Date 2001 1 1, val = None\<rparr>,
                                                     \<lparr>time = Date 2001 12 31, val = None\<rparr>])).
              year r = 2001 \<and> week_num r = 52}) = 8"
proof -
  let ?df = "gap_fill [\<lparr>time = Date 2001 1 1, val = None\<rparr>, \<lparr>time = Date 2001 12 31, val = None\<rparr>]"
  have n: "normalize None ?df = Inr (calendar_columns ?df)" by (simp add: normalize_def)
  have s: "set (days_of_year 2001) \<subseteq> time ` set ?df" using year_2001_times by simp
  have v: "\<forall>p \<in> set ?df. valid_date (time p)" using year_2001_valid by (simp add: list_all_iff)
  have d: "doy ` {r \<in> set (calendar_columns ?df). year r = 2001} = {1..365}"
    by (rule calendar_complete_year[OF s v])
  from week_coverage[OF n d] n d show ?thesis by blast
qed




end
